theory Spec2Isabelle
  imports Complex_Main "HOL-Library.Word" "HOL-Library.AList"
begin

unbundle bit_operations_syntax

section \<open>JavaScript values as the server reads them\<close>

text \<open>
  \<open>src/server.js\<close> reads properties of JSON objects that may be missing. A property
  is \<open>Absent\<close> (JavaScript's \<open>undefined\<close>), \<open>Nul\<close> (\<open>null\<close>) or holds a value of the
  JSON type the provider documents for it. Truthiness, as \<open>&&\<close>, \<open>||\<close> and \<open>!\<close> use it,
  is written out per type: a string is truthy when it is not empty, a number when it is
  not zero, an object always.
\<close>

datatype 'a field = Absent | Nul | Val 'a

fun truthy_str :: "string field \<Rightarrow> bool" where
  "truthy_str (Val s) = (s \<noteq> [])"
| "truthy_str _ = False"

fun truthy_num :: "int field \<Rightarrow> bool" where
  "truthy_num (Val n) = (n \<noteq> 0)"
| "truthy_num _ = False"

fun truthy_obj :: "'a field \<Rightarrow> bool" where
  "truthy_obj (Val x) = True"
| "truthy_obj _ = False"

text \<open>\<open>String(v)\<close> and template interpolation of a string-valued property.\<close>

fun js_String :: "string field \<Rightarrow> string" where
  "js_String Absent = ''undefined''"
| "js_String Nul = ''null''"
| "js_String (Val s) = s"

text \<open>Decimal rendering of a non-negative integer, as a template literal prints it.\<close>

definition digit :: "nat \<Rightarrow> char" where
  "digit d = ''0123456789'' ! d"

function show_nat :: "nat \<Rightarrow> string" where
  "show_nat n =
     (if n < 10 then [digit n]
      else show_nat (n div 10) @ [digit (n mod 10)])"
  by pat_completeness auto
termination
  by (relation "measure id") auto

declare show_nat.simps [simp del]

text \<open>A thrown JavaScript error: its \<open>name\<close> and its \<open>message\<close>.\<close>

datatype js_error = JsError (ename: string) (message: string)


section \<open>Session, token record and the outside world\<close>

record athlete =
  firstname :: "string field"
  lastname :: "string field"

record token_record =
  access_token :: "string field"
  refresh_token :: "string field"
  expires_at :: "int field"
  athlete :: "athlete field"

text \<open>
  \<open>req.session\<close>: cookie-session always provides the object, so \<open>req.session &&\<close> is
  constantly true; \<open>strava\<close> and \<open>oauth_state\<close> are \<open>None\<close> while undefined.
\<close>

record session =
  strava :: "token_record option"
  oauth_state :: "string option"

text \<open>
  The result of \<open>await fetch(...)\<close>: the promise rejects, or a response arrives with a
  status, a body text (\<open>res.text()\<close>) and what \<open>res.json()\<close> gives: \<open>Inl\<close> when it rejects
  (or yields \<open>null\<close>, on which the next property access throws), \<open>Inr\<close> the parsed body.
\<close>

datatype 'j response =
    Rejected js_error
  | Response (status: nat) (body_text: string) (body_json: "js_error + 'j")

fun ok :: "'j response \<Rightarrow> bool" where
  "ok (Response s t j) = (200 \<le> s \<and> s \<le> 299)"
| "ok (Rejected e) = False"

datatype grant = AuthorizationCode string | RefreshToken string

record api_request =
  after :: "int option"
  before :: "int option"
  per_page :: nat
  page :: nat
  authorization :: string

record raw_map =
  summary_polyline :: "string field"

record raw_activity =
  id_field :: "int field"
  name :: "string field"
  sport_type :: "string field"
  type :: "string field"
  start_date :: "string field"
  distance :: "real field"
  map_field :: "raw_map field"

text \<open>
  Everything the server does to the outside is recorded in a trace, oldest event first.
  \<open>FreshnessCheck\<close> marks an entry into \<open>refreshIfNeeded\<close>; the other events are the
  clock read, the two kinds of outbound request and \<open>console.error\<close>.
\<close>

datatype event =
    FreshnessCheck
  | ClockRead int
  | TokenCall grant
  | ApiCall api_request
  | ConsoleError "string list"

text \<open>
  The outside world is deterministic in the number of events that happened before and
  the request sent, which covers any sequence of answers and any passage of time.
\<close>

record env =
  clock :: "nat \<Rightarrow> int"
  token_endpoint :: "nat \<Rightarrow> grant \<Rightarrow> token_record response"
  api_endpoint :: "nat \<Rightarrow> api_request \<Rightarrow> raw_activity option list response"

record state =
  sess :: session
  trace :: "event list"

definition emit :: "event \<Rightarrow> state \<Rightarrow> state" where
  "emit e st = st\<lparr>trace := trace st @ [e]\<rparr>"

section \<open>Helper functions of the server\<close>

text \<open>\<open>isAuthed\<close>, server.js 49-51.\<close>

definition isAuthed :: "session \<Rightarrow> bool" where
  "isAuthed s =
     (case strava s of None \<Rightarrow> False | Some d \<Rightarrow> truthy_str (access_token d))"

text \<open>\<open>json.athlete || data.athlete\<close>.\<close>

definition athlete_or :: "athlete field \<Rightarrow> athlete field \<Rightarrow> athlete field" where
  "athlete_or a b = (if truthy_obj a then a else b)"

text \<open>The object literal of server.js 85-90.\<close>

definition refreshed :: "token_record \<Rightarrow> token_record \<Rightarrow> token_record" where
  "refreshed json d =
     \<lparr>access_token = access_token json,
      refresh_token = refresh_token json,
      expires_at = expires_at json,
      athlete = athlete_or (athlete json) (athlete d)\<rparr>"

text \<open>\<open>data.expires_at && data.expires_at - now <= 300\<close>, server.js 72.\<close>

definition needs_refresh :: "token_record \<Rightarrow> int \<Rightarrow> bool" where
  "needs_refresh d now =
     (truthy_num (expires_at d) \<and>
      (case expires_at d of Val e \<Rightarrow> e - now \<le> 300 | _ \<Rightarrow> False))"

text \<open>
  \<open>refreshIfNeeded\<close>, server.js 68-95. \<open>Inl\<close> is an exception leaving the function (the
  fetch rejects, or \<open>res.json()\<close> does); the state at that moment comes with it.
\<close>

definition refreshIfNeeded :: "env \<Rightarrow> state \<Rightarrow> state \<times> (js_error + unit)" where
  "refreshIfNeeded w st0 =
     (let st = emit FreshnessCheck st0 in
      case strava (sess st) of
        None \<Rightarrow> (st, Inr ())
      | Some d \<Rightarrow>
          (let now = clock w (length (trace st));
               st1 = emit (ClockRead now) st
           in if needs_refresh d now then
                (let g = RefreshToken (js_String (refresh_token d));
                     res = token_endpoint w (length (trace st1)) g;
                     st2 = emit (TokenCall g) st1
                 in case res of
                      Rejected e \<Rightarrow> (st2, Inl e)
                    | Response s t j \<Rightarrow>
                        if ok res then
                          (case j of
                             Inl e \<Rightarrow> (st2, Inl e)
                           | Inr json \<Rightarrow>
                               (st2\<lparr>sess := (sess st2)\<lparr>strava := Some (refreshed json d)\<rparr>\<rparr>,
                                Inr ()))
                        else (emit (ConsoleError [''Token refresh failed'', t]) st2, Inr ()))
              else (st1, Inr ())))"

text \<open>The number of refresh-grant requests in a trace.\<close>

fun is_refresh_call :: "event \<Rightarrow> bool" where
  "is_refresh_call (TokenCall (RefreshToken r)) = True"
| "is_refresh_call _ = False"

definition refresh_calls :: "event list \<Rightarrow> nat" where
  "refresh_calls tr = length (filter is_refresh_call tr)"

text \<open>
  \<open>stravaFetch\<close>, server.js 97-111, for the path \<open>/athlete/activities\<close>. The header
  \<open>Bearer ${req.session.strava.access_token}\<close> is built before the request leaves, and
  reading it throws a TypeError when the session holds no record.
\<close>

definition stravaFetch ::
  "env \<Rightarrow> state \<Rightarrow> int option \<Rightarrow> int option \<Rightarrow> nat \<Rightarrow> nat
     \<Rightarrow> state \<times> (js_error + raw_activity option list)" where
  "stravaFetch w st0 aft bef pp pg =
     (case refreshIfNeeded w st0 of
        (st, Inl e) \<Rightarrow> (st, Inl e)
      | (st, Inr u) \<Rightarrow>
          (case strava (sess st) of
             None \<Rightarrow>
               (st, Inl (JsError ''TypeError''
                  ''Cannot read properties of undefined (reading 'access_token')''))
           | Some d \<Rightarrow>
               (let rq = \<lparr>after = aft, before = bef, per_page = pp, page = pg,
                          authorization = ''Bearer '' @ js_String (access_token d)\<rparr>;
                    res = api_endpoint w (length (trace st)) rq;
                    st1 = emit (ApiCall rq) st
                in case res of
                     Rejected e \<Rightarrow> (st1, Inl e)
                   | Response s t j \<Rightarrow>
                       if \<not> ok res then
                         (st1, Inl (JsError ''Error''
                            (''Strava API error '' @ show_nat s @ '': '' @ t)))
                       else (case j of Inl e \<Rightarrow> (st1, Inl e) | Inr batch \<Rightarrow> (st1, Inr batch)))))"

section \<open>The activities route\<close>

text \<open>
  The \<open>while (true)\<close> loop of server.js 165-176, entered with \<open>page\<close> and \<open>all\<close>. The
  page size is the constant 200 and the loop leaves when \<open>page\<close> has passed 20.
\<close>

function fetch_loop ::
  "env \<Rightarrow> int option \<Rightarrow> int option \<Rightarrow> nat \<Rightarrow> raw_activity option list \<Rightarrow> state
     \<Rightarrow> state \<times> (js_error + raw_activity option list)" where
  "fetch_loop w aft bef pg all st =
     (case stravaFetch w st aft bef 200 pg of
        (st1, Inl e) \<Rightarrow> (st1, Inl e)
      | (st1, Inr batch) \<Rightarrow>
          (let all1 = all @ batch
           in if length batch = 0 \<or> length batch < 200 then (st1, Inr all1)
              else if pg + 1 > 20 then (st1, Inr all1)
              else fetch_loop w aft bef (pg + 1) all1 st1))"
  by pat_completeness auto
termination
  by (relation "measure (\<lambda>(w, aft, bef, pg, all, st). 21 - pg)") auto

declare fetch_loop.simps [simp del]

record route_record =
  r_id :: "int field"
  r_name :: "string field"
  r_sport_type :: "string field"
  r_start_date :: "string field"
  r_distance :: "real field"
  r_polyline :: "string field"

text \<open>The filter predicate \<open>a && a.map && a.map.summary_polyline\<close>, server.js 179.\<close>

definition has_polyline :: "raw_activity option \<Rightarrow> bool" where
  "has_polyline a =
     (case a of
        None \<Rightarrow> False
      | Some r \<Rightarrow>
          (case map_field r of
             Val m \<Rightarrow> truthy_str (summary_polyline m)
           | _ \<Rightarrow> False))"

text \<open>\<open>a.sport_type || a.type\<close>.\<close>

definition str_or :: "string field \<Rightarrow> string field \<Rightarrow> string field" where
  "str_or a b = (if truthy_str a then a else b)"

text \<open>
  The projection of server.js 180-187. On \<open>null\<close>, or on a record without \<open>map\<close>, the
  property access of the source throws a TypeError.
\<close>

definition project :: "raw_activity option \<Rightarrow> js_error + route_record" where
  "project a =
     (case a of
        None \<Rightarrow> Inl (JsError ''TypeError'' ''Cannot read properties of null (reading 'id')'')
      | Some r \<Rightarrow>
          (case map_field r of
             Val m \<Rightarrow>
               Inr \<lparr>r_id = id_field r, r_name = name r,
                    r_sport_type = str_or (sport_type r) (type r),
                    r_start_date = start_date r, r_distance = distance r,
                    r_polyline = summary_polyline m\<rparr>
           | Nul \<Rightarrow>
               Inl (JsError ''TypeError''
                 ''Cannot read properties of null (reading 'summary_polyline')'')
           | Absent \<Rightarrow>
               Inl (JsError ''TypeError''
                 ''Cannot read properties of undefined (reading 'summary_polyline')'')))"

text \<open>\<open>Array.prototype.map\<close> with a callback that may throw: the first throw ends it.\<close>

fun map_throw :: "('x \<Rightarrow> 'err + 'y) \<Rightarrow> 'x list \<Rightarrow> 'err + 'y list" where
  "map_throw f [] = Inr []"
| "map_throw f (x # xs) =
     (case f x of
        Inl thrown \<Rightarrow> Inl thrown
      | Inr y \<Rightarrow> map_sum id ((#) y) (map_throw f xs))"

definition cleaned :: "raw_activity option list \<Rightarrow> js_error + route_record list" where
  "cleaned all = map_throw project (filter has_polyline all)"

datatype location = Root | Authorize string

datatype json_body =
    ErrorBody string "string option"
  | ActivitiesBody "route_record list"

datatype reply =
    Redirect location
  | Send nat string
  | Json nat json_body




section \<open>The OAuth routes\<close>










text \<open>
  \<open>POST /logout\<close>, server.js 148-151: \<open>req.session = null\<close> makes cookie-session drop
  the cookie, so the next request starts from an empty session.
\<close>

definition post_logout :: "state \<Rightarrow> state \<times> reply" where
  "post_logout st = (st\<lparr>sess := \<lparr>strava = None, oauth_state = None\<rparr>\<rparr>, Redirect Root)"

section \<open>Readings of a run\<close>

text \<open>
  Two readings used in the statements below: the time \<open>refreshIfNeeded\<close> reads when it
  is entered in state \<open>st\<close>, and the answer of the token endpoint to the refresh request
  it then sends for the record \<open>d\<close>.
\<close>

definition now_of :: "env \<Rightarrow> state \<Rightarrow> int" where
  "now_of w st = clock w (Suc (length (trace st)))"

definition refresh_answer :: "env \<Rightarrow> state \<Rightarrow> token_record \<Rightarrow> token_record response" where
  "refresh_answer w st d =
     token_endpoint w (Suc (Suc (length (trace st)))) (RefreshToken (js_String (refresh_token d)))"

text \<open>
  Readings of a run of the page loop. \<open>state_after n\<close> is the
  state once the first \<open>n\<close> pages have been fetched, \<open>page_result p\<close> what fetching page \<open>p\<close>
  then gives, and \<open>pages_upto n\<close> the batches of pages 1 to \<open>n\<close> one after the other.
\<close>

fun state_after :: "env \<Rightarrow> int option \<Rightarrow> int option \<Rightarrow> state \<Rightarrow> nat \<Rightarrow> state" where
  "state_after w aft bef st 0 = st"
| "state_after w aft bef st (Suc n) =
     fst (stravaFetch w (state_after w aft bef st n) aft bef 200 (Suc n))"

definition page_result ::
  "env \<Rightarrow> int option \<Rightarrow> int option \<Rightarrow> state \<Rightarrow> nat \<Rightarrow> js_error + raw_activity option list" where
  "page_result w aft bef st p = snd (stravaFetch w (state_after w aft bef st (p - 1)) aft bef 200 p)"

definition batch_of :: "js_error + raw_activity option list \<Rightarrow> raw_activity option list" where
  "batch_of r = (case r of Inl e \<Rightarrow> [] | Inr batch \<Rightarrow> batch)"

definition pages_upto ::
  "env \<Rightarrow> int option \<Rightarrow> int option \<Rightarrow> state \<Rightarrow> nat \<Rightarrow> raw_activity option list" where
  "pages_upto w aft bef st n = concat (map (\<lambda>p. batch_of (page_result w aft bef st p)) [1..<Suc n])"

text \<open>The loop goes on after a page when neither \<open>break\<close> of line 173 is taken.\<close>

definition goes_on :: "js_error + raw_activity option list \<Rightarrow> bool" where
  "goes_on r =
     (case r of
        Inl e \<Rightarrow> False
      | Inr batch \<Rightarrow> \<not> (length batch = 0 \<or> length batch < 200))"

text \<open>
  The freshness checks and the page requests of a trace, in order: \<open>None\<close> for a check,
  the page number and page size for a request.
\<close>

fun mark :: "event \<Rightarrow> (nat \<times> nat) option list" where
  "mark FreshnessCheck = [None]"
| "mark (ApiCall rq) = [Some (page rq, per_page rq)]"
| "mark e = []"

definition marks :: "event list \<Rightarrow> (nat \<times> nat) option list" where
  "marks tr = concat (map mark tr)"

text \<open>The number of page requests in a trace.\<close>

fun is_api_call :: "event \<Rightarrow> bool" where
  "is_api_call (ApiCall rq) = True"
| "is_api_call e = False"

definition api_calls :: "event list \<Rightarrow> nat" where
  "api_calls tr = length (filter is_api_call tr)"


section \<open>The polyline decoder of the page script\<close>

text \<open>
  One \<open>do ... while (byte >= 0x20)\<close> loop of \<open>decodePolyline\<close>, server.js 360 and 363, on
  the rest of the string from \<open>index\<close> on. \<open>result\<close> is a 32-bit integer, as \<open>|=\<close> and \<open><<\<close>
  make it, and \<open><<\<close> uses its shift count modulo 32. Past the end of the string
  \<open>charCodeAt\<close> gives \<open>NaN\<close>: \<open>NaN & 0x1f\<close> is 0 and \<open>NaN >= 0x20\<close> is false, so the loop
  ends there with \<open>result\<close> as it is.
\<close>

fun chunk :: "string \<Rightarrow> nat \<Rightarrow> 32 word \<Rightarrow> 32 word \<times> string" where
  "chunk [] shift result = (result, [])"
| "chunk (c # cs) shift result =
     (let byte = of_char c - (63 :: int);
          result1 = result OR push_bit (shift mod 32) (word_of_int byte AND 0x1f)
      in if byte \<ge> 0x20 then chunk cs (shift + 5) result1 else (result1, cs))"

text \<open>\<open>(result & 1) ? ~(result >> 1) : (result >> 1)\<close>, with the arithmetic shift of \<open>>>\<close>.\<close>

definition change :: "32 word \<Rightarrow> int" where
  "change result =
     sint (if result AND 1 \<noteq> 0 then NOT (signed_drop_bit 1 result) else signed_drop_bit 1 result)"

lemma chunk_length: "length (snd (chunk s shift result)) \<le> length s"
  by (induction s arbitrary: shift result) (auto simp add: Let_def le_SucI)

lemma chunk_rest: "chunk s shift result = (r, rest) \<Longrightarrow> length rest \<le> length s"
  by (metis chunk_length snd_conv)

lemma chunk_rest_Cons:
  assumes "chunk (c # cs) shift result = (r, rest)"
  shows "length rest \<le> length cs"
proof (cases "of_char c - (63 :: int) \<ge> 0x20")
  case True
  with assms show ?thesis by (simp add: Let_def chunk_rest)
next
  case False
  with assms show ?thesis by (auto simp add: Let_def)
qed

text \<open>
  The outer \<open>while (index < str.length)\<close> loop, server.js 358-367, before the division:
  the accumulators \<open>lat\<close> and \<open>lng\<close> are JavaScript numbers holding integers, exact below
  \<open>2^53\<close>.
\<close>

function decode_from :: "string \<Rightarrow> int \<Rightarrow> int \<Rightarrow> (int \<times> int) list" where
  "decode_from [] lat lng = []"
| "decode_from (c # cs) lat lng =
     (case chunk (c # cs) 0 0 of
        (result1, rest1) \<Rightarrow>
          (case chunk rest1 0 0 of
             (result2, rest2) \<Rightarrow>
               (let latitude_change = change result1;
                    longitude_change = change result2;
                    lat1 = lat + latitude_change;
                    lng1 = lng + longitude_change
                in (lat1, lng1) # decode_from rest2 lat1 lng1)))"
  by pat_completeness auto
termination
  apply (relation "measure (\<lambda>(s, lat, lng). length s)")
   apply simp
  apply (simp del: chunk.simps)
  apply (metis chunk_rest chunk_rest_Cons le_imp_less_Suc le_trans)
  done

declare decode_from.simps [simp del]

text \<open>\<open>precision || 5\<close>: a missing precision and the precision 0 both give 5.\<close>

definition precision_or_5 :: "nat option \<Rightarrow> nat" where
  "precision_or_5 precision = (case precision of None \<Rightarrow> 5 | Some p \<Rightarrow> if p = 0 then 5 else p)"

text \<open>
  \<open>decodePolyline\<close>, server.js 355-369. The division \<open>lat / factor\<close> is the exact quotient
  here; the script rounds it to the nearest double.
\<close>

definition decodePolyline :: "string \<Rightarrow> nat option \<Rightarrow> (real \<times> real) list" where
  "decodePolyline str precision =
     (let factor = 10 ^ precision_or_5 precision
      in map (\<lambda>(lat, lng). (real_of_int lat / factor, real_of_int lng / factor))
           (decode_from str 0 0))"

section \<open>The polyline format as the specification words it\<close>







section \<open>The heat map of the page script\<close>

text \<open>
  The heat map branch of \<open>renderRoutes\<close>, server.js 509-541. Coordinates are real numbers
  here; the script computes with doubles. \<open>freq\<close> is the \<open>Map\<close> in insertion order, its
  string key \<open>rlat + ',' + rlng\<close> taken as the pair of the two numbers.
\<close>

record cell =
  cell_lat :: real
  cell_lng :: real
  cell_w :: nat

record heat =
  freq :: "((real \<times> real) \<times> cell) list"
  bounds :: "(real \<times> real) list"

text \<open>\<open>Math.round(x * 10000) / 10000\<close>: \<open>Math.round\<close> rounds halves upwards.\<close>

definition round4 :: "real \<Rightarrow> real" where
  "round4 x = real_of_int \<lfloor>x * 10000 + 1 / 2\<rfloor> / 10000"

definition pushPoint :: "heat \<Rightarrow> real \<Rightarrow> real \<Rightarrow> heat" where
  "pushPoint h lat lng =
     (let rlat = round4 lat;
          rlng = round4 lng;
          key = (rlat, rlng);
          v = (case map_of (freq h) key of
                 None \<Rightarrow> \<lparr>cell_lat = rlat, cell_lng = rlng, cell_w = 0\<rparr>
               | Some v \<Rightarrow> v);
          v1 = v\<lparr>cell_w := cell_w v + 1\<rparr>
      in h\<lparr>freq := AList.update key v1 (freq h), bounds := bounds h @ [(lat, lng)]\<rparr>)"

text \<open>\<open>Math.max(0, Math.floor(dist / 0.0005))\<close>, server.js 528-531.\<close>

definition steps_between :: "real \<times> real \<Rightarrow> real \<times> real \<Rightarrow> nat" where
  "steps_between c n =
     (let dLat = fst n - fst c;
          dLng = snd n - snd c;
          dist = sqrt (dLat * dLat + dLng * dLng)
      in nat (max 0 \<lfloor>dist / 0.0005\<rfloor>))"

text \<open>The inner loop \<open>for (var s = 1; s <= steps; s++)\<close>, server.js 532-536.\<close>

definition segment :: "heat \<Rightarrow> real \<times> real \<Rightarrow> real \<times> real \<Rightarrow> heat" where
  "segment h c n =
     (let dLat = fst n - fst c;
          dLng = snd n - snd c;
          steps = steps_between c n
      in fold (\<lambda>s h. pushPoint h
                 (fst c + dLat * real s / real (steps + 1))
                 (snd c + dLng * real s / real (steps + 1)))
           [1..<Suc steps] h)"

text \<open>The loop over the coordinates of one route, server.js 523-538.\<close>

fun route_points :: "heat \<Rightarrow> (real \<times> real) list \<Rightarrow> heat" where
  "route_points h [] = h"
| "route_points h (c # cs) =
     (let h1 = pushPoint h (fst c) (snd c);
          h2 = (case cs of [] \<Rightarrow> h1 | n # ns \<Rightarrow> segment h1 c n)
      in route_points h2 cs)"

text \<open>\<open>filtered.forEach\<close> over the decoded routes, starting from the empty map.\<close>

definition aggregate :: "(real \<times> real) list list \<Rightarrow> heat" where
  "aggregate routes = fold (\<lambda>coords h. route_points h coords) routes \<lparr>freq = [], bounds = []\<rparr>"

definition heat_layer :: "string list \<Rightarrow> heat" where
  "heat_layer polylines = aggregate (map (\<lambda>polyline. decodePolyline polyline None) polylines)"






section \<open>Example inputs\<close>

definition ex_athlete :: athlete where
  "ex_athlete = \<lparr>firstname = Val ''Ada'', lastname = Absent\<rparr>"

definition ex_record :: "int field \<Rightarrow> token_record" where
  "ex_record e =
     \<lparr>access_token = Val ''old-access'', refresh_token = Val ''old-refresh'',
      expires_at = e, athlete = Val ex_athlete\<rparr>"

definition ex_json :: token_record where
  "ex_json =
     \<lparr>access_token = Val ''new-access'', refresh_token = Val ''new-refresh'',
      expires_at = Val 22600, athlete = Absent\<rparr>"

definition ex_env :: "nat \<Rightarrow> env" where
  "ex_env s =
     \<lparr>clock = (\<lambda>n. 1000),
      token_endpoint = (\<lambda>n g. Response s ''body'' (Inr ex_json)),
      api_endpoint = (\<lambda>n r. Response 200 [] (Inr []))\<rparr>"

definition ex_state :: "int field \<Rightarrow> state" where
  "ex_state e = \<lparr>sess = \<lparr>strava = Some (ex_record e), oauth_state = None\<rparr>, trace = []\<rparr>"




definition ex_activity :: "string field \<Rightarrow> string field \<Rightarrow> raw_map field \<Rightarrow> raw_activity" where
  "ex_activity st ty m =
     \<lparr>id_field = Val 7, name = Val ''Morning Ride'', sport_type = st, type = ty,
      start_date = Val ''2024-05-01T06:00:00Z'', distance = Val 12345, map_field = m\<rparr>"

definition ex_pages_env :: "(nat \<Rightarrow> raw_activity option list response) \<Rightarrow> env" where
  "ex_pages_env pages =
     \<lparr>clock = (\<lambda>n. 1000),
      token_endpoint = (\<lambda>n g. Rejected (JsError ''TypeError'' ''fetch failed'')),
      api_endpoint = (\<lambda>n rq. pages (page rq))\<rparr>"

definition ex_ride :: "raw_activity option" where
  "ex_ride =
     Some (ex_activity (Val ''Ride'') (Val ''Ride'') (Val \<lparr>summary_polyline = Val ''_p~iF~ps|U''\<rparr>))"


section \<open>Properties of the token lifecycle\<close>

lemma refresh_none:
  "strava (sess st) = None \<Longrightarrow> refreshIfNeeded w st = (emit FreshnessCheck st, Inr ())"
  by (simp add: refreshIfNeeded_def emit_def)

lemma refresh_skip:
  "strava (sess st) = Some d \<Longrightarrow> \<not> needs_refresh d (now_of w st) \<Longrightarrow>
   refreshIfNeeded w st = (st\<lparr>trace := trace st @ [FreshnessCheck, ClockRead (now_of w st)]\<rparr>, Inr ())"
  by (simp add: refreshIfNeeded_def emit_def now_of_def Let_def)

lemma refresh_go:
  "strava (sess st) = Some d \<Longrightarrow> needs_refresh d (now_of w st) \<Longrightarrow>
   refreshIfNeeded w st =
     (let g = RefreshToken (js_String (refresh_token d));
          st2 = st\<lparr>trace := trace st @ [FreshnessCheck, ClockRead (now_of w st), TokenCall g]\<rparr>
      in case refresh_answer w st d of
           Rejected e \<Rightarrow> (st2, Inl e)
         | Response s t j \<Rightarrow>
             if 200 \<le> s \<and> s \<le> 299 then
               (case j of
                  Inl e \<Rightarrow> (st2, Inl e)
                | Inr json \<Rightarrow> (st2\<lparr>sess := (sess st)\<lparr>strava := Some (refreshed json d)\<rparr>\<rparr>, Inr ()))
             else (st2\<lparr>trace := trace st2 @ [ConsoleError [''Token refresh failed'', t]]\<rparr>, Inr ()))"
  by (simp add: refreshIfNeeded_def emit_def now_of_def refresh_answer_def Let_def
      split: response.splits sum.splits)

lemma refresh_calls_append [simp]:
  "refresh_calls (xs @ ys) = refresh_calls xs + refresh_calls ys"
  by (simp add: refresh_calls_def)

lemma refresh_calls_simps [simp]:
  "refresh_calls [] = 0"
  "refresh_calls (e # es) = (if is_refresh_call e then 1 else 0) + refresh_calls es"
  by (simp_all add: refresh_calls_def)

text \<open>
  Claim C1. When the refresh request is answered with a success status and a body,
  \<open>refreshIfNeeded\<close> stores one new record in one assignment: access token, refresh
  token and expiry are those of the answer, the athlete profile is the answer's when it
  has one and the old record's otherwise, and the rest of the session is untouched.
  Whatever the answer, the record stored afterwards is either the old record or such a
  whole new record, never a mix of the two.
\<close>

theorem refresh_success_swaps_whole_record:
  assumes "strava (sess st) = Some d"
  shows "(needs_refresh d (now_of w st) \<and> refresh_answer w st d = Response s t (Inr json) \<and>
          200 \<le> s \<and> s \<le> 299 \<longrightarrow>
            snd (refreshIfNeeded w st) = Inr () \<and>
            strava (sess (fst (refreshIfNeeded w st))) =
              Some \<lparr>access_token = access_token json,
                    refresh_token = refresh_token json,
                    expires_at = expires_at json,
                    athlete = (case athlete json of Val a \<Rightarrow> Val a | _ \<Rightarrow> athlete d)\<rparr> \<and>
            oauth_state (sess (fst (refreshIfNeeded w st))) = oauth_state (sess st)) \<and>
         (strava (sess (fst (refreshIfNeeded w st))) = Some d \<or>
          (\<exists>s' t' json'. refresh_answer w st d = Response s' t' (Inr json') \<and>
             strava (sess (fst (refreshIfNeeded w st))) = Some (refreshed json' d)))"
proof (cases "needs_refresh d (now_of w st)")
  case False
  with assms show ?thesis by (simp add: refresh_skip)
next
  case True
  have swap: "refreshed json d =
      \<lparr>access_token = access_token json, refresh_token = refresh_token json,
       expires_at = expires_at json,
       athlete = (case athlete json of Val a \<Rightarrow> Val a | _ \<Rightarrow> athlete d)\<rparr>"
    by (cases "athlete json") (simp_all add: refreshed_def athlete_or_def)
  show ?thesis
  proof (cases "refresh_answer w st d")
    case (Rejected e)
    with assms True show ?thesis by (simp add: refresh_go)
  next
    case (Response s' t' j')
    with assms True swap show ?thesis
      by (cases j') (auto simp add: refresh_go Let_def)
  qed
qed

theorem refresh_success_swaps_whole_record_witness:
  "strava (sess (ex_state (Val 1100))) = Some (ex_record (Val 1100)) \<and>
   needs_refresh (ex_record (Val 1100)) (now_of (ex_env 200) (ex_state (Val 1100))) \<and>
   refresh_answer (ex_env 200) (ex_state (Val 1100)) (ex_record (Val 1100)) = Response 200 ''body'' (Inr ex_json) \<and>
   strava (sess (fst (refreshIfNeeded (ex_env 200) (ex_state (Val 1100))))) =
     Some \<lparr>access_token = Val ''new-access'', refresh_token = Val ''new-refresh'',
           expires_at = Val 22600, athlete = Val ex_athlete\<rparr>"
proof -
  have h: "strava (sess (ex_state (Val 1100))) = Some (ex_record (Val 1100))"
    by (simp add: ex_state_def)
  have n: "needs_refresh (ex_record (Val 1100)) (now_of (ex_env 200) (ex_state (Val 1100)))"
    by (simp add: needs_refresh_def ex_record_def now_of_def ex_env_def)
  have a: "refresh_answer (ex_env 200) (ex_state (Val 1100)) (ex_record (Val 1100)) = Response 200 ''body'' (Inr ex_json)"
    by (simp add: refresh_answer_def ex_env_def)
  from refresh_success_swaps_whole_record [OF h, of "ex_env 200" 200 "''body''" ex_json] n a
  show ?thesis using h
    by (simp add: ex_json_def ex_record_def)
qed

lemma needs_refresh_Val:
  "expires_at d = Val e \<Longrightarrow> needs_refresh d now = (e \<noteq> 0 \<and> e - now \<le> 300)"
  by (simp add: needs_refresh_def)

lemma refresh_go_calls:
  assumes "strava (sess st) = Some d" "needs_refresh d (now_of w st)"
  shows "refresh_calls (trace (fst (refreshIfNeeded w st))) = Suc (refresh_calls (trace st))"
  using assms
  by (simp add: refresh_go Let_def split: response.splits sum.splits)

text \<open>
  Claim C3, as amended. Without a record \<open>refreshIfNeeded\<close> does nothing. With a record
  whose \<open>expires_at\<close> is a number other than 0, it sends a refresh request exactly when
  \<open>expires_at - now \<le> 300\<close>: at \<open>now + 301\<close> none is sent and the session is unchanged, at
  \<open>now + 299\<close> exactly one is sent, and when that one succeeds the whole record is
  replaced.
\<close>

theorem refresh_iff_within_window:
  "(strava (sess st) = None \<longrightarrow>
      snd (refreshIfNeeded w st) = Inr () \<and>
      sess (fst (refreshIfNeeded w st)) = sess st \<and>
      refresh_calls (trace (fst (refreshIfNeeded w st))) = refresh_calls (trace st)) \<and>
   (strava (sess st) = Some d \<and> expires_at d = Val e \<and> e \<noteq> 0 \<longrightarrow>
      refresh_calls (trace (fst (refreshIfNeeded w st))) =
        refresh_calls (trace st) + (if e - now_of w st \<le> 300 then 1 else 0) \<and>
      (e = now_of w st + 301 \<longrightarrow>
         snd (refreshIfNeeded w st) = Inr () \<and>
         sess (fst (refreshIfNeeded w st)) = sess st \<and>
         refresh_calls (trace (fst (refreshIfNeeded w st))) = refresh_calls (trace st)) \<and>
      (e = now_of w st + 299 \<longrightarrow>
         refresh_calls (trace (fst (refreshIfNeeded w st))) = refresh_calls (trace st) + 1 \<and>
         (\<forall>s t json.
            refresh_answer w st d = Response s t (Inr json) \<and> 200 \<le> s \<and> s \<le> 299 \<longrightarrow>
            snd (refreshIfNeeded w st) = Inr () \<and>
            strava (sess (fst (refreshIfNeeded w st))) = Some (refreshed json d))))"
proof (intro conjI impI)
  assume "strava (sess st) = None"
  then have r: "refreshIfNeeded w st = (emit FreshnessCheck st, Inr ())"
    by (rule refresh_none)
  show "snd (refreshIfNeeded w st) = Inr ()"
    and "sess (fst (refreshIfNeeded w st)) = sess st"
    and "refresh_calls (trace (fst (refreshIfNeeded w st))) = refresh_calls (trace st)"
    by (simp_all add: r emit_def)
next
  assume a: "strava (sess st) = Some d \<and> expires_at d = Val e \<and> e \<noteq> 0"
  then have nr: "needs_refresh d (now_of w st) = (e - now_of w st \<le> 300)"
    by (simp add: needs_refresh_Val)
  show "refresh_calls (trace (fst (refreshIfNeeded w st))) =
        refresh_calls (trace st) + (if e - now_of w st \<le> 300 then 1 else 0)"
  proof (cases "e - now_of w st \<le> 300")
    case True
    with a nr show ?thesis by (simp add: refresh_go_calls)
  next
    case False
    with a nr show ?thesis by (simp add: refresh_skip)
  qed
  {
    assume "e = now_of w st + 301"
    with nr have "\<not> needs_refresh d (now_of w st)" by simp
    with a have r: "refreshIfNeeded w st =
        (st\<lparr>trace := trace st @ [FreshnessCheck, ClockRead (now_of w st)]\<rparr>, Inr ())"
      by (simp add: refresh_skip)
    show "snd (refreshIfNeeded w st) = Inr ()"
      and "sess (fst (refreshIfNeeded w st)) = sess st"
      and "refresh_calls (trace (fst (refreshIfNeeded w st))) = refresh_calls (trace st)"
      by (simp_all add: r)
  }
  {
    assume "e = now_of w st + 299"
    with nr have n: "needs_refresh d (now_of w st)" by simp
    with a show "refresh_calls (trace (fst (refreshIfNeeded w st))) = refresh_calls (trace st) + 1"
      by (simp add: refresh_go_calls)
    show "\<forall>s t json.
            refresh_answer w st d = Response s t (Inr json) \<and> 200 \<le> s \<and> s \<le> 299 \<longrightarrow>
            snd (refreshIfNeeded w st) = Inr () \<and>
            strava (sess (fst (refreshIfNeeded w st))) = Some (refreshed json d)"
      using a n by (simp add: refresh_go Let_def)
  }
qed

theorem refresh_iff_within_window_witness:
  "refresh_calls (trace (fst (refreshIfNeeded (ex_env 200) (ex_state (Val 1299))))) = 1 \<and>
   strava (sess (fst (refreshIfNeeded (ex_env 200) (ex_state (Val 1299))))) =
     Some (refreshed ex_json (ex_record (Val 1299))) \<and>
   refresh_calls (trace (fst (refreshIfNeeded (ex_env 200) (ex_state (Val 1301))))) = 0 \<and>
   sess (fst (refreshIfNeeded (ex_env 200) (ex_state (Val 1301)))) = sess (ex_state (Val 1301))"
proof -
  have n: "now_of (ex_env 200) (ex_state e) = 1000" for e
    by (simp add: now_of_def ex_env_def)
  have a: "refresh_answer (ex_env 200) (ex_state e) (ex_record e) = Response 200 ''body'' (Inr ex_json)" for e
    by (simp add: refresh_answer_def ex_env_def)
  have s: "strava (sess (ex_state e)) = Some (ex_record e)" "expires_at (ex_record e) = Val e'
      \<longleftrightarrow> e = Val e'" "trace (ex_state e) = []" for e e'
    by (simp_all add: ex_state_def ex_record_def)
  from refresh_iff_within_window
         [of "ex_state (Val 1299)" "ex_env 200" "ex_record (Val 1299)" 1299]
       refresh_iff_within_window
         [of "ex_state (Val 1301)" "ex_env 200" "ex_record (Val 1301)" 1301]
  show ?thesis
    by (simp add: n a s)
qed

text \<open>
  Claim C3 as written fails on two inputs. A record with \<open>expires_at = 0\<close> read at time
  1000 has \<open>expires_at - now \<le> 300\<close>, and no refresh request is sent (the guard
  \<open>data.expires_at &&\<close> of line 72). A record with \<open>expires_at = now + 299\<close> whose refresh
  request is answered with status 500 is asked for once and is not replaced.
\<close>

theorem zero_expiry_not_refreshed_counterexample:
  "strava (sess (ex_state (Val 0))) = Some (ex_record (Val 0)) \<and>
   expires_at (ex_record (Val 0)) = Val 0 \<and>
   (0::int) - now_of (ex_env 200) (ex_state (Val 0)) \<le> 300 \<and>
   refresh_calls (trace (fst (refreshIfNeeded (ex_env 200) (ex_state (Val 0))))) = 0 \<and>
   expires_at (ex_record (Val 1299)) = Val (now_of (ex_env 500) (ex_state (Val 1299)) + 299) \<and>
   refresh_calls (trace (fst (refreshIfNeeded (ex_env 500) (ex_state (Val 1299))))) = 1 \<and>
   strava (sess (fst (refreshIfNeeded (ex_env 500) (ex_state (Val 1299))))) =
     Some (ex_record (Val 1299))"
  by (simp add: refreshIfNeeded_def ex_state_def ex_record_def ex_env_def now_of_def emit_def
      needs_refresh_def Let_def)

text \<open>
  Claim C4. When the token endpoint answers the refresh request with a status outside
  200..299, \<open>refreshIfNeeded\<close> returns normally, leaves the session as it was and logs
  \<open>Token refresh failed\<close> with the body; \<open>stravaFetch\<close> then goes on to send the API
  request with the stale access token.
\<close>

theorem refresh_failure_keeps_record:
  assumes "strava (sess st) = Some d"
    and "needs_refresh d (now_of w st)"
    and "refresh_answer w st d = Response s t j"
    and "\<not> (200 \<le> s \<and> s \<le> 299)"
  shows "snd (refreshIfNeeded w st) = Inr () \<and>
         sess (fst (refreshIfNeeded w st)) = sess st \<and>
         trace (fst (refreshIfNeeded w st)) =
           trace st @ [FreshnessCheck, ClockRead (now_of w st),
                       TokenCall (RefreshToken (js_String (refresh_token d))),
                       ConsoleError [''Token refresh failed'', t]] \<and>
         trace (fst (stravaFetch w st aft bef pp pg)) =
           trace (fst (refreshIfNeeded w st)) @
             [ApiCall \<lparr>after = aft, before = bef, per_page = pp, page = pg,
                       authorization = ''Bearer '' @ js_String (access_token d)\<rparr>]"
proof -
  have r: "refreshIfNeeded w st =
      (st\<lparr>trace := trace st @ [FreshnessCheck, ClockRead (now_of w st),
                       TokenCall (RefreshToken (js_String (refresh_token d))),
                       ConsoleError [''Token refresh failed'', t]]\<rparr>, Inr ())"
    using assms by (auto simp add: refresh_go Let_def)
  have "trace (fst (stravaFetch w st aft bef pp pg)) =
           trace (fst (refreshIfNeeded w st)) @
             [ApiCall \<lparr>after = aft, before = bef, per_page = pp, page = pg,
                       authorization = ''Bearer '' @ js_String (access_token d)\<rparr>]"
    using assms(1)
    by (simp add: stravaFetch_def r Let_def emit_def split: response.splits sum.splits)
  with r show ?thesis by simp
qed

theorem refresh_failure_keeps_record_witness:
  "needs_refresh (ex_record (Val 1100)) (now_of (ex_env 500) (ex_state (Val 1100))) \<and>
   refresh_answer (ex_env 500) (ex_state (Val 1100)) (ex_record (Val 1100)) =
     Response 500 ''body'' (Inr ex_json) \<and>
   snd (refreshIfNeeded (ex_env 500) (ex_state (Val 1100))) = Inr () \<and>
   sess (fst (refreshIfNeeded (ex_env 500) (ex_state (Val 1100)))) = sess (ex_state (Val 1100)) \<and>
   trace (fst (stravaFetch (ex_env 500) (ex_state (Val 1100)) None None 200 1)) =
     [FreshnessCheck, ClockRead 1000, TokenCall (RefreshToken ''old-refresh''),
      ConsoleError [''Token refresh failed'', ''body''],
      ApiCall \<lparr>after = None, before = None, per_page = 200, page = 1,
                authorization = ''Bearer old-access''\<rparr>]"
proof -
  have h: "strava (sess (ex_state (Val 1100))) = Some (ex_record (Val 1100))"
    by (simp add: ex_state_def)
  have n: "needs_refresh (ex_record (Val 1100)) (now_of (ex_env 500) (ex_state (Val 1100)))"
    by (simp add: needs_refresh_def ex_record_def now_of_def ex_env_def)
  have a: "refresh_answer (ex_env 500) (ex_state (Val 1100)) (ex_record (Val 1100)) =
      Response 500 ''body'' (Inr ex_json)"
    by (simp add: refresh_answer_def ex_env_def)
  have b: "\<not> (200 \<le> (500::nat) \<and> (500::nat) \<le> 299)" by simp
  from refresh_failure_keeps_record [OF h n a b, of None None 200 1] n a
  show ?thesis
    by (simp add: ex_state_def ex_record_def now_of_def ex_env_def)
qed

text \<open>
  Claim C10. A record whose \<open>expires_at\<close> is absent, \<open>null\<close> or 0 is never refreshed,
  whatever the clock says: \<open>refreshIfNeeded\<close> only reads the clock and leaves the record
  in place. \<open>isAuthed\<close> looks at the access token alone, so with a non-empty access
  token the session still counts as authenticated.
\<close>

theorem falsy_expiry_never_refreshed:
  assumes "strava (sess st) = Some d"
    and "expires_at d = Absent \<or> expires_at d = Nul \<or> expires_at d = Val 0"
  shows "refreshIfNeeded w st =
           (st\<lparr>trace := trace st @ [FreshnessCheck, ClockRead (now_of w st)]\<rparr>, Inr ()) \<and>
         refresh_calls (trace (fst (refreshIfNeeded w st))) = refresh_calls (trace st) \<and>
         strava (sess (fst (refreshIfNeeded w st))) = Some d \<and>
         isAuthed (sess (fst (refreshIfNeeded w st))) = truthy_str (access_token d) \<and>
         (\<forall>s. access_token d = Val s \<and> s \<noteq> [] \<longrightarrow> isAuthed (sess (fst (refreshIfNeeded w st))))"
proof -
  from assms(2) have "\<not> needs_refresh d (now_of w st)"
    by (auto simp add: needs_refresh_def)
  with assms(1) have r: "refreshIfNeeded w st =
      (st\<lparr>trace := trace st @ [FreshnessCheck, ClockRead (now_of w st)]\<rparr>, Inr ())"
    by (rule refresh_skip)
  show ?thesis using assms(1) by (simp add: r isAuthed_def)
qed

theorem falsy_expiry_never_refreshed_witness:
  "refresh_calls (trace (fst (refreshIfNeeded (ex_env 200) (ex_state Absent)))) = 0 \<and>
   refresh_calls (trace (fst (refreshIfNeeded (ex_env 200) (ex_state Nul)))) = 0 \<and>
   refresh_calls (trace (fst (refreshIfNeeded (ex_env 200) (ex_state (Val 0))))) = 0 \<and>
   strava (sess (fst (refreshIfNeeded (ex_env 200) (ex_state (Val 0))))) = Some (ex_record (Val 0)) \<and>
   isAuthed (sess (fst (refreshIfNeeded (ex_env 200) (ex_state (Val 0)))))"
proof -
  have h: "strava (sess (ex_state e)) = Some (ex_record e)" "trace (ex_state e) = []"
    "expires_at (ex_record e) = e" "access_token (ex_record e) = Val ''old-access''" for e
    by (simp_all add: ex_state_def ex_record_def)
  from falsy_expiry_never_refreshed [of "ex_state Absent" "ex_record Absent" "ex_env 200"]
       falsy_expiry_never_refreshed [of "ex_state Nul" "ex_record Nul" "ex_env 200"]
       falsy_expiry_never_refreshed [of "ex_state (Val 0)" "ex_record (Val 0)" "ex_env 200"]
  show ?thesis by (simp add: h isAuthed_def)
qed

section \<open>Properties of the OAuth routes\<close>








section \<open>Properties of the normalisation\<close>

lemma has_polyline_iff:
  "has_polyline a =
     (\<exists>r m s. a = Some r \<and> map_field r = Val m \<and> summary_polyline m = Val s \<and> s \<noteq> [])"
proof (cases a)
  case None
  then show ?thesis by (simp add: has_polyline_def)
next
  case (Some r)
  show ?thesis
  proof (cases "map_field r")
    case (Val m)
    with Some show ?thesis
      by (cases "summary_polyline m") (simp_all add: has_polyline_def)
  qed (simp_all add: Some has_polyline_def)
qed

lemma project_kept:
  assumes "has_polyline a"
  shows "\<exists>r m s. a = Some r \<and> map_field r = Val m \<and> summary_polyline m = Val s \<and> s \<noteq> [] \<and>
           project a =
             Inr \<lparr>r_id = id_field r, r_name = name r,
                  r_sport_type = (if \<exists>t. sport_type r = Val t \<and> t \<noteq> [] then sport_type r else type r),
                  r_start_date = start_date r, r_distance = distance r, r_polyline = Val s\<rparr>"
proof -
  from assms obtain r m s where
    a: "a = Some r" "map_field r = Val m" "summary_polyline m = Val s" "s \<noteq> []"
    by (auto simp add: has_polyline_iff)
  have "truthy_str (sport_type r) = (\<exists>t. sport_type r = Val t \<and> t \<noteq> [])"
    by (cases "sport_type r") simp_all
  with a show ?thesis
    by (simp add: project_def str_or_def)
qed

text \<open>
  Claim C7. The normalisation of server.js 178-187 never throws: for every list of raw
  activities (\<open>null\<close> entries included) it returns a list. That list corresponds, entry
  by entry and in the same order, to the sublist of the inputs that have a \<open>map\<close> object
  with a non-empty \<open>summary_polyline\<close> string; every other input is dropped. Each kept
  record carries \<open>id\<close>, \<open>name\<close>, \<open>start_date\<close>, \<open>distance\<close> and the polyline unchanged, and
  its \<open>sport_type\<close> is the input's \<open>sport_type\<close> when that is a non-empty string and the
  input's \<open>type\<close> otherwise.
\<close>

theorem normalize_filters_and_projects:
  "\<exists>rs. cleaned all = Inr rs \<and>
     list_all2
       (\<lambda>a x. \<exists>r m s.
          a = Some r \<and> map_field r = Val m \<and> summary_polyline m = Val s \<and> s \<noteq> [] \<and>
          x = \<lparr>r_id = id_field r, r_name = name r,
               r_sport_type = (if \<exists>t. sport_type r = Val t \<and> t \<noteq> [] then sport_type r else type r),
               r_start_date = start_date r, r_distance = distance r, r_polyline = Val s\<rparr>)
       (filter
          (\<lambda>a. \<exists>r m s. a = Some r \<and> map_field r = Val m \<and> summary_polyline m = Val s \<and> s \<noteq> [])
          all)
       rs"
proof -
  let ?R = "\<lambda>a x. \<exists>r m s.
          a = Some r \<and> map_field r = Val m \<and> summary_polyline m = Val s \<and> s \<noteq> [] \<and>
          x = \<lparr>r_id = id_field r, r_name = name r,
               r_sport_type = (if \<exists>t. sport_type r = Val t \<and> t \<noteq> [] then sport_type r else type r),
               r_start_date = start_date r, r_distance = distance r, r_polyline = Val s\<rparr>"
  have kept: "\<exists>rs. map_throw project (filter has_polyline xs) = Inr rs \<and>
      list_all2 ?R (filter has_polyline xs) rs" for xs
  proof (induction xs)
    case Nil
    show ?case by simp
  next
    case (Cons a xs)
    from Cons.IH obtain rs where
      rs: "map_throw project (filter has_polyline xs) = Inr rs"
        "list_all2 ?R (filter has_polyline xs) rs"
      by blast
    show ?case
    proof (cases "has_polyline a")
      case False
      with rs show ?thesis by simp
    next
      case True
      from project_kept [OF True] obtain x where x: "project a = Inr x" "?R a x"
        by blast
      from True rs x have "map_throw project (filter has_polyline (a # xs)) = Inr (x # rs)"
        by simp
      moreover from True rs(2) x(2) have "list_all2 ?R (filter has_polyline (a # xs)) (x # rs)"
        by simp
      ultimately show ?thesis by blast
    qed
  qed
  have "has_polyline =
      (\<lambda>a. \<exists>r m s. a = Some r \<and> map_field r = Val m \<and> summary_polyline m = Val s \<and> s \<noteq> [])"
    by (rule ext) (rule has_polyline_iff)
  with kept [of all] show ?thesis
    by (simp add: cleaned_def)
qed

theorem normalize_filters_and_projects_witness:
  "cleaned
     [Some (ex_activity (Val ''GravelRide'') (Val ''Ride'') (Val \<lparr>summary_polyline = Val ''_p~iF~ps|U''\<rparr>)),
      None,
      Some (ex_activity (Val ''Run'') (Val ''Run'') Absent),
      Some (ex_activity (Val '''') (Val ''Hike'') (Val \<lparr>summary_polyline = Val ''_ulLnnqC''\<rparr>)),
      Some (ex_activity Absent (Val ''Walk'') (Val \<lparr>summary_polyline = Val ''''\<rparr>)),
      Some (ex_activity Absent (Val ''Swim'') (Val \<lparr>summary_polyline = Nul\<rparr>))] =
   Inr
     [\<lparr>r_id = Val 7, r_name = Val ''Morning Ride'', r_sport_type = Val ''GravelRide'',
       r_start_date = Val ''2024-05-01T06:00:00Z'', r_distance = Val 12345,
       r_polyline = Val ''_p~iF~ps|U''\<rparr>,
      \<lparr>r_id = Val 7, r_name = Val ''Morning Ride'', r_sport_type = Val ''Hike'',
       r_start_date = Val ''2024-05-01T06:00:00Z'', r_distance = Val 12345,
       r_polyline = Val ''_ulLnnqC''\<rparr>]"
  using normalize_filters_and_projects
    [of "[Some (ex_activity (Val ''GravelRide'') (Val ''Ride'') (Val \<lparr>summary_polyline = Val ''_p~iF~ps|U''\<rparr>)),
      None,
      Some (ex_activity (Val ''Run'') (Val ''Run'') Absent),
      Some (ex_activity (Val '''') (Val ''Hike'') (Val \<lparr>summary_polyline = Val ''_ulLnnqC''\<rparr>)),
      Some (ex_activity Absent (Val ''Walk'') (Val \<lparr>summary_polyline = Val ''''\<rparr>)),
      Some (ex_activity Absent (Val ''Swim'') (Val \<lparr>summary_polyline = Nul\<rparr>))]"]
  by (simp add: cleaned_def has_polyline_def project_def str_or_def ex_activity_def)

section \<open>Properties of the page loop\<close>

lemma marks_append [simp]: "marks (xs @ ys) = marks xs @ marks ys"
  by (simp add: marks_def)

lemma marks_Nil [simp]: "marks [] = []"
  by (simp add: marks_def)

lemma marks_Cons [simp]: "marks (e # es) = mark e @ marks es"
  by (simp add: marks_def)

lemma refreshIfNeeded_marks:
  "marks (trace (fst (refreshIfNeeded w st))) = marks (trace st) @ [None]"
  by (simp add: refreshIfNeeded_def Let_def emit_def split: option.splits response.splits sum.splits)

lemma stravaFetch_marks:
  assumes "snd (stravaFetch w st aft bef pp pg) = Inr batch"
  shows "marks (trace (fst (stravaFetch w st aft bef pp pg))) = marks (trace st) @ [None, Some (pg, pp)]"
proof -
  obtain st1 r where r: "refreshIfNeeded w st = (st1, r)"
    by (cases "refreshIfNeeded w st")
  with refreshIfNeeded_marks [of w st] have m: "marks (trace st1) = marks (trace st) @ [None]"
    by simp
  from assms r m show ?thesis
    by (auto simp add: stravaFetch_def Let_def emit_def
        split: sum.splits option.splits response.splits if_splits)
qed

lemma fetch_step:
  "fetch_loop w aft bef (Suc n) all (state_after w aft bef st n) =
     (case page_result w aft bef st (Suc n) of
        Inl e \<Rightarrow> (state_after w aft bef st (Suc n), Inl e)
      | Inr batch \<Rightarrow>
          if length batch < 200 \<or> 20 \<le> Suc n
          then (state_after w aft bef st (Suc n), Inr (all @ batch))
          else fetch_loop w aft bef (Suc (Suc n)) (all @ batch) (state_after w aft bef st (Suc n)))"
proof -
  obtain st1 r where r: "stravaFetch w (state_after w aft bef st n) aft bef 200 (Suc n) = (st1, r)"
    by (cases "stravaFetch w (state_after w aft bef st n) aft bef 200 (Suc n)")
  then show ?thesis
    by (subst fetch_loop.simps) (auto simp add: page_result_def Let_def split: sum.splits)
qed

lemma pages_upto_Suc:
  "pages_upto w aft bef st (Suc n) =
     pages_upto w aft bef st n @ batch_of (page_result w aft bef st (Suc n))"
  by (simp add: pages_upto_def)

lemma loop_runs:
  assumes "\<forall>p. n < p \<and> p < k \<longrightarrow> goes_on (page_result w aft bef st p)"
    and "n < k" and "k \<le> 20"
    and "k < 20 \<longrightarrow> \<not> goes_on (page_result w aft bef st k)"
  shows "fetch_loop w aft bef (Suc n) (pages_upto w aft bef st n) (state_after w aft bef st n) =
     (state_after w aft bef st k,
      case page_result w aft bef st k of
        Inl e \<Rightarrow> Inl e
      | Inr batch \<Rightarrow> Inr (pages_upto w aft bef st k))"
  using assms
proof (induction "k - Suc n" arbitrary: n)
  case 0
  then have k: "k = Suc n" by simp
  show ?case
  proof (cases "page_result w aft bef st (Suc n)")
    case (Inl e)
    then show ?thesis by (simp add: fetch_step k)
  next
    case (Inr batch)
    with "0.prems" k have "length batch < 200 \<or> 20 \<le> Suc n"
      by (cases "k < 20") (auto simp add: goes_on_def)
    with Inr show ?thesis
      by (simp add: fetch_step k pages_upto_Suc batch_of_def)
  qed
next
  case (Suc d)
  then have lt: "Suc n < k" by simp
  with Suc.prems have "goes_on (page_result w aft bef st (Suc n))" by simp
  then obtain batch where b: "page_result w aft bef st (Suc n) = Inr batch" "\<not> length batch < 200"
    by (auto simp add: goes_on_def split: sum.splits)
  from lt Suc.prems have c: "\<not> 20 \<le> Suc n" by simp
  have "fetch_loop w aft bef (Suc (Suc n)) (pages_upto w aft bef st (Suc n))
          (state_after w aft bef st (Suc n)) =
        (state_after w aft bef st k,
         case page_result w aft bef st k of
           Inl e \<Rightarrow> Inl e
         | Inr batch \<Rightarrow> Inr (pages_upto w aft bef st k))"
    using Suc.hyps(2) Suc.prems lt by (intro Suc.hyps(1)) auto
  with b c show ?case
    by (simp add: fetch_step pages_upto_Suc batch_of_def)
qed

lemma state_after_marks:
  assumes "\<forall>p. 1 \<le> p \<and> p \<le> n \<longrightarrow> (\<exists>batch. page_result w aft bef st p = Inr batch)"
  shows "marks (trace (state_after w aft bef st n)) =
     marks (trace st) @ concat (map (\<lambda>p. [None, Some (p, 200)]) [1..<Suc n])"
  using assms
proof (induction n)
  case 0
  show ?case by simp
next
  case (Suc n)
  then obtain batch where "page_result w aft bef st (Suc n) = Inr batch"
    by (metis le_refl le_add1 plus_1_eq_Suc)
  then have "snd (stravaFetch w (state_after w aft bef st n) aft bef 200 (Suc n)) = Inr batch"
    by (simp add: page_result_def)
  from stravaFetch_marks [OF this] Suc show ?case
    by simp
qed


lemma api_calls_marks:
  "api_calls tr = length (filter (\<lambda>m. m \<noteq> None) (marks tr))"
proof (induction tr)
  case Nil
  show ?case by (simp add: api_calls_def)
next
  case (Cons e tr)
  then show ?case by (cases e) (simp_all add: api_calls_def)
qed

lemma count_marks:
  "length (filter (\<lambda>m. m \<noteq> None) (concat (map (\<lambda>p. [None, Some (p, c)]) ps))) = length ps"
  by (induction ps) simp_all

text \<open>
  Claim C5, as amended. When the first \<open>n\<close> pages hold exactly 200 records each and, for
  \<open>n < 20\<close>, page \<open>n + 1\<close> holds fewer (none, when the data ends on the page boundary),
  the loop sends exactly \<open>min (n + 1) 20\<close> page requests: one when page 1 is short, 20 at
  the cap whatever further pages hold. The requests ask for pages 1, 2, ... in ascending
  order with page size 200, each one is preceded by a freshness check of its own, and
  the result is the batches of the pages in the order they were fetched.
\<close>

theorem fetch_loop_pages:
  assumes "\<forall>p. 1 \<le> p \<and> p \<le> n \<longrightarrow>
           (\<exists>batch. page_result w aft bef st p = Inr batch \<and> length batch = 200)"
    and "n < 20 \<longrightarrow>
           (\<exists>batch. page_result w aft bef st (Suc n) = Inr batch \<and> length batch < 200)"
  shows "fetch_loop w aft bef 1 [] st =
           (state_after w aft bef st (min (Suc n) 20),
            Inr (pages_upto w aft bef st (min (Suc n) 20))) \<and>
         marks (trace (state_after w aft bef st (min (Suc n) 20))) =
           marks (trace st) @
             concat (map (\<lambda>p. [None, Some (p, 200)]) [1..<Suc (min (Suc n) 20)]) \<and>
         api_calls (trace (state_after w aft bef st (min (Suc n) 20))) =
           api_calls (trace st) + min (Suc n) 20"
proof -
  define k where "k = Suc n"
  have k1: "1 \<le> k" by (simp add: k_def)
  have k2: "\<forall>p. 1 \<le> p \<and> p < k \<longrightarrow>
           (\<exists>batch. page_result w aft bef st p = Inr batch \<and> length batch = 200)"
    using assms(1) by (simp add: k_def)
  have k3: "k \<le> 20 \<longrightarrow> (\<exists>batch. page_result w aft bef st k = Inr batch \<and> length batch < 200)"
    using assms(2) by (simp add: k_def)
  let ?m = "min k 20"
  have before: "goes_on (page_result w aft bef st p)" if "0 < p" "p < ?m" for p
  proof -
    from that k2 obtain batch where
      "page_result w aft bef st p = Inr batch" "length batch = 200"
      by (metis Suc_leI One_nat_def min_less_iff_conj)
    then show ?thesis by (simp add: goes_on_def)
  qed
  have last: "\<exists>batch. page_result w aft bef st ?m = Inr batch \<and> (?m < 20 \<longrightarrow> length batch < 200)"
  proof (cases "k \<le> 20")
    case True
    with k3 show ?thesis by (auto simp add: min_def)
  next
    case False
    with k2 have "\<exists>batch. page_result w aft bef st 20 = Inr batch \<and> length batch = 200"
      by simp
    with False show ?thesis by (auto simp add: min_def)
  qed
  then obtain batch where
    b: "page_result w aft bef st ?m = Inr batch" "?m < 20 \<longrightarrow> length batch < 200"
    by blast
  have stop: "?m < 20 \<longrightarrow> \<not> goes_on (page_result w aft bef st ?m)"
    using b by (cases "k < 20") (auto simp add: goes_on_def min_def)
  have "fetch_loop w aft bef (Suc 0) (pages_upto w aft bef st 0) (state_after w aft bef st 0) =
      (state_after w aft bef st ?m,
       case page_result w aft bef st ?m of
         Inl e \<Rightarrow> Inl e
       | Inr batch \<Rightarrow> Inr (pages_upto w aft bef st ?m))"
    using before stop k1 by (intro loop_runs) auto
  with b(1) have run: "fetch_loop w aft bef 1 [] st =
      (state_after w aft bef st ?m, Inr (pages_upto w aft bef st ?m))"
    by (simp add: pages_upto_def)
  have all: "\<forall>p. 1 \<le> p \<and> p \<le> ?m \<longrightarrow> (\<exists>batch. page_result w aft bef st p = Inr batch)"
  proof (intro allI impI)
    fix p assume p: "1 \<le> p \<and> p \<le> ?m"
    show "\<exists>batch. page_result w aft bef st p = Inr batch"
    proof (cases "p = ?m")
      case True
      with b(1) show ?thesis by simp
    next
      case False
      with p have "0 < p" "p < ?m" by (auto simp add: min_def split: if_splits)
      from before [OF this] show ?thesis
        by (auto simp add: goes_on_def split: sum.splits)
    qed
  qed
  have m: "marks (trace (state_after w aft bef st ?m)) =
      marks (trace st) @ concat (map (\<lambda>p. [None, Some (p, 200)]) [1..<Suc ?m])"
    by (rule state_after_marks [OF all])
  have "api_calls (trace (state_after w aft bef st ?m)) = api_calls (trace st) + ?m"
    by (simp only: api_calls_marks m filter_append length_append count_marks) simp
  with run m show ?thesis by (simp add: k_def)
qed

lemma ex_stravaFetch:
  assumes "sess st = sess (ex_state (Val 99999))"
  shows "stravaFetch (ex_pages_env pages) st aft bef pp pg =
     (st\<lparr>trace := trace st @
         [FreshnessCheck, ClockRead 1000,
          ApiCall \<lparr>after = aft, before = bef, per_page = pp, page = pg,
                    authorization = ''Bearer old-access''\<rparr>]\<rparr>,
      case pages pg of
        Rejected e \<Rightarrow> Inl e
      | Response s t j \<Rightarrow>
          if 200 \<le> s \<and> s \<le> 299 then j
          else Inl (JsError ''Error'' (''Strava API error '' @ show_nat s @ '': '' @ t)))"
  using assms
  by (simp add: stravaFetch_def refreshIfNeeded_def ex_pages_env_def ex_state_def ex_record_def
      needs_refresh_def Let_def emit_def split: response.splits sum.splits)

lemma ex_state_after:
  "sess (state_after (ex_pages_env pages) aft bef (ex_state (Val 99999)) n) =
     sess (ex_state (Val 99999))"
  by (induction n) (simp_all add: ex_stravaFetch)

lemma ex_page_result:
  "page_result (ex_pages_env pages) aft bef (ex_state (Val 99999)) p =
     (case pages p of
        Rejected e \<Rightarrow> Inl e
      | Response s t j \<Rightarrow>
          if 200 \<le> s \<and> s \<le> 299 then j
          else Inl (JsError ''Error'' (''Strava API error '' @ show_nat s @ '': '' @ t)))"
  by (simp add: page_result_def ex_stravaFetch [OF ex_state_after])

theorem fetch_loop_pages_witness:
  "api_calls (trace (fst (fetch_loop
      (ex_pages_env (\<lambda>p. Response 200 [] (Inr (replicate (if p < 3 then 200 else 7) ex_ride))))
      None None 1 [] (ex_state (Val 99999))))) = 3 \<and>
   marks (trace (fst (fetch_loop
      (ex_pages_env (\<lambda>p. Response 200 [] (Inr (replicate (if p < 3 then 200 else 7) ex_ride))))
      None None 1 [] (ex_state (Val 99999))))) =
     [None, Some (1, 200), None, Some (2, 200), None, Some (3, 200)] \<and>
   snd (fetch_loop
      (ex_pages_env (\<lambda>p. Response 200 [] (Inr (replicate (if p < 3 then 200 else 7) ex_ride))))
      None None 1 [] (ex_state (Val 99999))) = Inr (replicate 407 ex_ride) \<and>
   api_calls (trace (fst (fetch_loop
      (ex_pages_env (\<lambda>p. Response 200 [] (Inr (replicate 200 ex_ride))))
      None None 1 [] (ex_state (Val 99999))))) = 20"
proof -
  let ?w = "ex_pages_env (\<lambda>p. Response 200 [] (Inr (replicate (if p < 3 then 200 else 7) ex_ride)))"
  let ?v = "ex_pages_env (\<lambda>p. Response 200 [] (Inr (replicate 200 ex_ride)))"
  let ?st = "ex_state (Val 99999)"
  have t: "trace ?st = []" by (simp add: ex_state_def)
  have u: "[Suc 0..<4] = [1, 2, 3]" by (simp add: upt_rec)
  have r: "replicate 407 ex_ride = replicate 200 ex_ride @ replicate 200 ex_ride @ replicate 7 ex_ride"
    by (simp add: replicate_add [symmetric])
  have p: "pages_upto ?w None None ?st 3 = replicate 407 ex_ride"
    by (simp add: pages_upto_def u ex_page_result batch_of_def r)
  have a: "\<forall>p. 1 \<le> p \<and> p \<le> 2 \<longrightarrow>
      (\<exists>batch. page_result ?w None None ?st p = Inr batch \<and> length batch = 200)"
    by (simp add: ex_page_result)
  have b: "2 < (20::nat) \<longrightarrow>
      (\<exists>batch. page_result ?w None None ?st (Suc 2) = Inr batch \<and> length batch < 200)"
    by (simp add: ex_page_result)
  have c: "\<forall>p. 1 \<le> p \<and> p \<le> 20 \<longrightarrow>
      (\<exists>batch. page_result ?v None None ?st p = Inr batch \<and> length batch = 200)"
    by (simp add: ex_page_result)
  have d: "20 < (20::nat) \<longrightarrow>
      (\<exists>batch. page_result ?v None None ?st (Suc 20) = Inr batch \<and> length batch < 200)"
    by simp
  from fetch_loop_pages [of 2 ?w None None ?st, OF a b]
       fetch_loop_pages [of 20 ?v None None ?st, OF c d]
  show ?thesis
    by (simp add: t u p api_calls_def)
qed


text \<open>
  Claim C5 as written counts \<open>min N 20\<close> requests when every page is exactly 200 long.
  With one page of exactly 200 records the loop cannot know that the data has ended: it
  asks for page 2, gets an empty page and stops after two requests, not one.
\<close>

theorem extra_request_on_page_boundary_counterexample:
  "page_result (ex_pages_env (\<lambda>p. Response 200 [] (Inr (replicate (if p < 2 then 200 else 0) ex_ride))))
      None None (ex_state (Val 99999)) 1 = Inr (replicate 200 ex_ride) \<and>
   page_result (ex_pages_env (\<lambda>p. Response 200 [] (Inr (replicate (if p < 2 then 200 else 0) ex_ride))))
      None None (ex_state (Val 99999)) 2 = Inr [] \<and>
   snd (fetch_loop
      (ex_pages_env (\<lambda>p. Response 200 [] (Inr (replicate (if p < 2 then 200 else 0) ex_ride))))
      None None 1 [] (ex_state (Val 99999))) = Inr (replicate 200 ex_ride) \<and>
   api_calls (trace (fst (fetch_loop
      (ex_pages_env (\<lambda>p. Response 200 [] (Inr (replicate (if p < 2 then 200 else 0) ex_ride))))
      None None 1 [] (ex_state (Val 99999))))) = 2 \<and>
   min 1 20 = (1::nat)"
proof -
  let ?w = "ex_pages_env (\<lambda>p. Response 200 [] (Inr (replicate (if p < 2 then 200 else 0) ex_ride)))"
  let ?st = "ex_state (Val 99999)"
  have s: "sess ?st = sess (ex_state (Val 99999))" ..
  have s1: "sess (fst (stravaFetch ?w ?st None None 200 1)) = sess (ex_state (Val 99999))"
    by (simp add: ex_stravaFetch)
  have "fetch_loop ?w None None 1 [] ?st =
      (fst (stravaFetch ?w (fst (stravaFetch ?w ?st None None 200 1)) None None 200 2),
       Inr (replicate 200 ex_ride))"
    by (subst fetch_loop.simps, simp add: ex_stravaFetch [OF s],
        subst fetch_loop.simps, simp add: ex_stravaFetch)
  then have f: "snd (fetch_loop ?w None None 1 [] ?st) = Inr (replicate 200 ex_ride)"
    and c: "api_calls (trace (fst (fetch_loop ?w None None 1 [] ?st))) = 2"
    by (simp_all add: ex_stravaFetch api_calls_def ex_state_def)
  have r1: "page_result ?w None None ?st 1 = Inr (replicate 200 ex_ride)"
    by (simp add: ex_page_result)
  have r2: "page_result ?w None None ?st 2 = Inr []"
    by (simp add: ex_page_result)
  from r1 r2 f c show ?thesis
    by (intro conjI) simp_all
qed

section \<open>Properties of the activities route\<close>
















section \<open>Properties of the polyline decoder\<close>












section \<open>Properties of the heat map\<close>

























end
